theory Spec2Isabelle
  imports Main
begin

section \<open>The syntax tree handed over by the grammar front end\<close>

text \<open>
  \<^verbatim>\<open>cffi/cparser.py\<close> never builds syntax trees itself: it receives them from pycparser
  and inspects them with \<^verbatim>\<open>isinstance\<close> and attribute reads. The node classes it looks at
  are the constructors below; their arguments are the attributes the parser reads
  (\<^verbatim>\<open>name\<close>, \<^verbatim>\<open>type\<close>, \<^verbatim>\<open>dim\<close>, \<^verbatim>\<open>args.params\<close>, \<^verbatim>\<open>decls\<close>, \<^verbatim>\<open>values.enumerators\<close>,
  \<^verbatim>\<open>bitsize\<close>, \<^verbatim>\<open>declname\<close>, \<^verbatim>\<open>names\<close>). An attribute that may be \<^verbatim>\<open>None\<close> is an option.

  \<^verbatim>\<open>Struct\<close> and \<^verbatim>\<open>Union\<close> nodes carry a natural number that stands for the identity of
  the Python object: \<^verbatim>\<open>_structnode2type\<close> is keyed by the node object, and pycparser
  shares one node between the declarators of \<^verbatim>\<open>typedef struct { } foo_t, *foo_p\<close>, so that
  two occurrences with the same number are one node.
\<close>

datatype expr =
    Constant string
  | UnaryOp string expr
  | OtherExpr

datatype enumerator = Enumerator string "expr option"

datatype typenode =
    TypeDecl "string option" typenode
  | PtrDecl typenode
  | ArrayDecl typenode "expr option"
  | FuncDecl "decl list option" typenode
  | IdentifierType "string list"
  | Struct nat "string option" "decl list option"
  | Union nat "string option" "decl list option"
  | Enum "string option" "enumerator list option"
and decl = Decl "string option" typenode "expr option"

text \<open>
  A \<^verbatim>\<open>Decl name type bitsize\<close> is a \<^verbatim>\<open>c_ast.Decl\<close>; a function parameter without a name
  (\<^verbatim>\<open>c_ast.Typename\<close>) has the same two attributes \<^verbatim>\<open>name\<close> and \<^verbatim>\<open>type\<close> and is written
  as a \<^verbatim>\<open>Decl\<close> with no bitsize. The entries of \<^verbatim>\<open>ast.ext\<close> are declarations, typedefs, or
  something else (a function definition, for instance), which has no \<^verbatim>\<open>name\<close> attribute.
\<close>

datatype ext_node =
    ExtDecl decl
  | Typedef "string option" typenode
  | OtherExt

section \<open>The type graph of \<^verbatim>\<open>cffi.model\<close>\<close>

text \<open>
  Modelled from the spec: the classes of \<^verbatim>\<open>cffi/model.py\<close>, which is not part of the
  sources at hand. Section 3 of the specification lists the variants and their
  components; an array type has its element type and an optional length.
  \<^verbatim>\<open>StructType\<close>, \<^verbatim>\<open>UnionType\<close> and \<^verbatim>\<open>EnumType\<close> objects have an identity: the
  parser hands the same \<^verbatim>\<open>StructType\<close> object out again and assigns its attributes
  \<^verbatim>\<open>fldnames\<close>, \<^verbatim>\<open>fldtypes\<close> and \<^verbatim>\<open>fldbitsize\<close> later. They live in a store, a list of
  objects, and a type refers to one by its index (\<open>ObjRef\<close>).
\<close>

datatype ty =
    VoidType
  | PrimitiveType string
  | PointerType ty
  | ArrayType ty "int option"
  | FunctionType "ty list" ty bool
  | ObjRef nat

datatype obj =
    StructType string "string option list option" "ty list option" "int list option"
  | UnionType string "string option list option" "ty list option" "int list option"
  | EnumType "string option" "string list" "int list"

datatype error =
    CDefError string
  | FFIError string
  | AssertionError string
  | NameError string
  | AttributeError
  | TypeError
  | IndexError
  | ValueError

text \<open>
  Modelled from the spec: the attribute \<^verbatim>\<open>item\<close> of a \<^verbatim>\<open>model.ArrayType\<close>, a class of
  \<^verbatim>\<open>cffi/model.py\<close>, which is not part of the sources at hand. \<^verbatim>\<open>_get_type\<close> reads it in one
  place only, for the name of a typedef of an array type under
  \<^verbatim>\<open>convert_array_to_pointer\<close>, and section 4.3 (rule 1) of the specification says what
  this read yields: a pointer to the element of the array. The argument is the element.
\<close>

definition ArrayType_item :: "ty \<Rightarrow> ty" where
  "ArrayType_item element = PointerType element"

section \<open>The parser object\<close>

record parser =
  declarations :: "string \<rightharpoonup> ty"
  anonymous_counter :: nat
  structnode2type :: "nat \<rightharpoonup> ty"
  heap :: "obj list"

text \<open>
  A method returns a value or raises, and in both cases leaves the parser as it has
  mutated it so far: the result is a pair of the outcome and the parser afterwards.
\<close>

type_synonym 'a result = "(error + 'a) \<times> parser"

definition Parser_init :: parser where
  "Parser_init = \<lparr>declarations = Map.empty, anonymous_counter = 0,
                  structnode2type = Map.empty, heap = []\<rparr>"

definition new_obj :: "obj \<Rightarrow> parser \<Rightarrow> ty \<times> parser" where
  "new_obj ob st = (ObjRef (length (heap st)), st\<lparr>heap := heap st @ [ob]\<rparr>)"

definition map_result :: "('a \<Rightarrow> 'b) \<Rightarrow> 'a result \<Rightarrow> 'b result" where
  "map_result f r = (case r of (Inl e, st) \<Rightarrow> (Inl e, st) | (Inr x, st) \<Rightarrow> (Inr (f x), st))"

section \<open>Strings and numbers of Python\<close>

primrec position :: "'a \<Rightarrow> 'a list \<Rightarrow> nat option" where
  "position x [] = None"
| "position x (y # ys) = (if x = y then Some 0 else map_option Suc (position x ys))"

definition digit_val :: "char \<Rightarrow> int option" where
  "digit_val c = map_option int (position c ''0123456789'')"

fun digits_val :: "string \<Rightarrow> int \<Rightarrow> int option" where
  "digits_val [] acc = Some acc"
| "digits_val (c # cs) acc =
     (case digit_val c of None \<Rightarrow> None | Some d \<Rightarrow> digits_val cs (10 * acc + d))"

text \<open>
  \<^verbatim>\<open>int(s)\<close> on the text of a constant token: a run of decimal digits is its value, and
  the other spellings the lexer produces (hexadecimal, a suffix, a float, a character)
  raise \<^verbatim>\<open>ValueError\<close>, here \<open>None\<close>.
\<close>

definition py_int :: "string \<Rightarrow> int option" where
  "py_int s = (if s = [] then None else digits_val s 0)"

definition digit_char :: "nat \<Rightarrow> char" where
  "digit_char d = ''0123456789'' ! d"

fun str_of_nat :: "nat \<Rightarrow> string" where
  "str_of_nat n = (if n < 10 then [digit_char n] else str_of_nat (n div 10) @ [digit_char (n mod 10)])"

declare str_of_nat.simps [simp del]

text \<open>\<^verbatim>\<open>'%s' % (x,)\<close> for a string or \<^verbatim>\<open>None\<close>.\<close>

definition py_str :: "string option \<Rightarrow> string" where
  "py_str x = (case x of None \<Rightarrow> ''None'' | Some s \<Rightarrow> s)"

text \<open>The truth value of a name that is a string or \<^verbatim>\<open>None\<close>.\<close>

definition truthy :: "string option \<Rightarrow> bool" where
  "truthy x = (case x of None \<Rightarrow> False | Some s \<Rightarrow> s \<noteq> [])"

fun join :: "string \<Rightarrow> string list \<Rightarrow> string" where
  "join sep [] = []"
| "join sep [x] = x"
| "join sep (x # y # ys) = x @ sep @ join sep (y # ys)"

section \<open>The methods that do not recurse over types\<close>

text \<open>\<^verbatim>\<open>Parser._parse_constant\<close>.\<close>

fun parse_constant :: "expr \<Rightarrow> error + int" where
  "parse_constant (Constant v) = (case py_int v of None \<Rightarrow> Inl ValueError | Some n \<Rightarrow> Inr n)"
| "parse_constant (UnaryOp op e) =
     (if op = ''-''
      then (case parse_constant e of Inl err \<Rightarrow> Inl err | Inr n \<Rightarrow> Inr (- n))
      else Inl (FFIError ''unsupported non-constant or not immediately constant expression''))"
| "parse_constant OtherExpr =
     Inl (FFIError ''unsupported non-constant or not immediately constant expression'')"

text \<open>\<^verbatim>\<open>Parser._declare\<close>.\<close>

definition declare_entry :: "string \<Rightarrow> ty \<Rightarrow> parser \<Rightarrow> unit result" where
  "declare_entry name ob st =
     (if name \<in> dom (declarations st)
      then (Inl (FFIError (''multiple declarations of '' @ name)), st)
      else (Inr (), st\<lparr>declarations := (declarations st)(name \<mapsto> ob)\<rparr>))"

text \<open>\<^verbatim>\<open>Parser._get_type_pointer\<close>.\<close>

definition get_type_pointer :: "ty \<Rightarrow> ty" where
  "get_type_pointer type =
     (case type of FunctionType args result ellipsis \<Rightarrow> type | _ \<Rightarrow> PointerType type)"

text \<open>
  The reduction of synonyms in \<^verbatim>\<open>_get_type\<close>: the three \<^verbatim>\<open>if\<close> statements on the list
  \<^verbatim>\<open>names\<close>, then \<^verbatim>\<open>' '.join(names)\<close>. \<^verbatim>\<open>names[0]\<close> raises on an empty list.
\<close>

definition primitive_ident :: "string list \<Rightarrow> error + string" where
  "primitive_ident names0 =
     (let names1 = (if names0 = [''signed''] \<or> names0 = [''unsigned'']
                    then names0 @ [''int''] else names0)
      in case names1 of
           [] \<Rightarrow> Inl IndexError
         | first # rest \<Rightarrow>
             (let names2 = (if first = ''signed'' \<and> names1 \<noteq> [''signed'', ''char'']
                            then rest else names1);
                  names3 = (if length names2 > 1 \<and> last names2 = ''int''
                                \<and> names2 \<noteq> [''unsigned'', ''int'']
                            then butlast names2 else names2)
              in Inr (join '' '' names3)))"

text \<open>The loop of \<^verbatim>\<open>_get_enum_type\<close> over the enumerators.\<close>

fun enum_loop :: "enumerator list \<Rightarrow> int \<Rightarrow> int list \<Rightarrow> error + int list" where
  "enum_loop [] nextenumvalue enumvalues = Inr enumvalues"
| "enum_loop (Enumerator name val # rest) nextenumvalue enumvalues =
     (case (case val of None \<Rightarrow> Inr nextenumvalue | Some e \<Rightarrow> parse_constant e) of
        Inl err \<Rightarrow> Inl err
      | Inr v \<Rightarrow> enum_loop rest (v + 1) (enumvalues @ [v]))"

fun enumerator_name :: "enumerator \<Rightarrow> string" where
  "enumerator_name (Enumerator name val) = name"

text \<open>
  \<^verbatim>\<open>Parser._get_enum_type\<close>, applied to the \<^verbatim>\<open>name\<close> and the \<^verbatim>\<open>values\<close> of the node. The key
  is built with \<^verbatim>\<open>'enum %s' % (name,)\<close>, also when the name is \<^verbatim>\<open>None\<close>.
\<close>

definition get_enum_type :: "string option \<Rightarrow> enumerator list option \<Rightarrow> parser \<Rightarrow> ty result" where
  "get_enum_type name decls st =
     (let key = ''enum '' @ py_str name in
      case declarations st key of
        Some tp \<Rightarrow> (Inr tp, st)
      | None \<Rightarrow>
          (case decls of
             Some enumerators \<Rightarrow>
               (case enum_loop enumerators 0 [] of
                  Inl err \<Rightarrow> (Inl err, st)
                | Inr enumvalues \<Rightarrow>
                    (let (tp, st1) = new_obj (EnumType name (map enumerator_name enumerators)
                                                enumvalues) st
                     in (Inr tp, st1\<lparr>declarations := (declarations st1)(key \<mapsto> tp)\<rparr>)))
           | None \<Rightarrow>
               (let (tp, st1) = new_obj (EnumType name [] []) st in (Inr tp, st1))))"

section \<open>Struct and union objects\<close>

text \<open>Reading \<^verbatim>\<open>tp.fldnames\<close>: only struct and union objects have the attribute.\<close>

definition get_fldnames :: "ty \<Rightarrow> parser \<Rightarrow> error + string option list option" where
  "get_fldnames tp st =
     (case tp of
        ObjRef a \<Rightarrow>
          (if a < length (heap st)
           then (case heap st ! a of
                   StructType n fn ft fb \<Rightarrow> Inr fn
                 | UnionType n fn ft fb \<Rightarrow> Inr fn
                 | EnumType n es vs \<Rightarrow> Inl AttributeError)
           else Inl AttributeError)
      | _ \<Rightarrow> Inl AttributeError)"

text \<open>The three assignments \<^verbatim>\<open>tp.fldnames = ...\<close>, \<^verbatim>\<open>tp.fldtypes = ...\<close>, \<^verbatim>\<open>tp.fldbitsize = ...\<close>.\<close>

definition set_obj_fields :: "obj \<Rightarrow> string option list \<Rightarrow> ty list \<Rightarrow> int list \<Rightarrow> obj" where
  "set_obj_fields ob fldnames fldtypes fldbitsize =
     (case ob of
        StructType n fn ft fb \<Rightarrow> StructType n (Some fldnames) (Some fldtypes) (Some fldbitsize)
      | UnionType n fn ft fb \<Rightarrow> UnionType n (Some fldnames) (Some fldtypes) (Some fldbitsize)
      | EnumType n es vs \<Rightarrow> ob)"

definition set_fields :: "ty \<Rightarrow> string option list \<Rightarrow> ty list \<Rightarrow> int list \<Rightarrow> parser \<Rightarrow> parser" where
  "set_fields tp fldnames fldtypes fldbitsize st =
     (case tp of
        ObjRef a \<Rightarrow> st\<lparr>heap := (heap st)[a := set_obj_fields (heap st ! a) fldnames fldtypes fldbitsize]\<rparr>
      | _ \<Rightarrow> st)"

text \<open>
  The first half of \<^verbatim>\<open>_get_struct_or_union_type\<close>, after the miss in \<^verbatim>\<open>_structnode2type\<close> and up
  to \<^verbatim>\<open>self._declare(key, tp)\<close>: find the type of a named tag in the declarations or create
  the object, with no fields yet. \<open>declname\<close> is \<^verbatim>\<open>typenode.declname\<close> when \<^verbatim>\<open>typenode\<close> is
  given and its \<^verbatim>\<open>declname\<close> is a string, and \<open>None\<close> otherwise.
\<close>

definition create_aggregate :: "string \<Rightarrow> string \<Rightarrow> parser \<Rightarrow> ty result" where
  "create_aggregate kind explicit_name st =
     (if kind = ''struct''
      then (let (tp, st1) = new_obj (StructType explicit_name None None None) st in (Inr tp, st1))
      else if kind = ''union''
      then (let (tp, st1) = new_obj (UnionType explicit_name None None None) st in (Inr tp, st1))
      else (Inl (AssertionError (''kind = '' @ kind)), st))"

definition struct_skeleton :: "string \<Rightarrow> string option \<Rightarrow> string option \<Rightarrow> parser \<Rightarrow> ty result" where
  "struct_skeleton kind name declname st =
     (case name of
        None \<Rightarrow>
          (case declname of
             Some dn \<Rightarrow> create_aggregate kind (''$'' @ dn) st
           | None \<Rightarrow>
               create_aggregate kind (''$'' @ str_of_nat (anonymous_counter st + 1))
                 (st\<lparr>anonymous_counter := anonymous_counter st + 1\<rparr>))
      | Some n \<Rightarrow>
          (let key = kind @ '' '' @ n in
           case declarations st key of
             Some tp \<Rightarrow> (Inr tp, st)
           | None \<Rightarrow>
               (case create_aggregate kind n st of
                  (Inl err, st1) \<Rightarrow> (Inl err, st1)
                | (Inr tp, st1) \<Rightarrow> map_result (\<lambda>u. tp) (declare_entry key tp st1))))"

section \<open>The type resolver\<close>

text \<open>
  The test at the head of \<^verbatim>\<open>_get_type\<close>, on the \<^verbatim>\<open>type\<close> of a \<^verbatim>\<open>TypeDecl\<close>: an
  \<^verbatim>\<open>IdentifierType\<close> with one name that is a key \<^verbatim>\<open>'typedef ' + name\<close> of the declarations.
\<close>

definition typedef_lookup :: "typenode \<Rightarrow> parser \<Rightarrow> ty option" where
  "typedef_lookup type st =
     (case type of
        IdentifierType names \<Rightarrow>
          (if length names = 1 then declarations st (''typedef '' @ names ! 0) else None)
      | _ \<Rightarrow> None)"

text \<open>
  The tests of \<^verbatim>\<open>_parse_function_type\<close> on a parameter: its type is a \<^verbatim>\<open>TypeDecl\<close> of an
  \<^verbatim>\<open>IdentifierType\<close> with exactly the given names.
\<close>

fun param_is_ident :: "decl \<Rightarrow> string list \<Rightarrow> bool" where
  "param_is_ident (Decl name (TypeDecl declname (IdentifierType names)) bitsize) ns = (names = ns)"
| "param_is_ident d ns = False"

text \<open>
  The parameter list of \<^verbatim>\<open>_parse_function_type\<close> after the trailing \<^verbatim>\<open>__dotdotdot__\<close> and a
  lone \<^verbatim>\<open>void\<close> have been removed, with the \<^verbatim>\<open>ellipsis\<close> flag.
\<close>

definition function_params :: "decl list option \<Rightarrow> decl list \<times> bool" where
  "function_params args =
     (let params = (case args of None \<Rightarrow> [] | Some ps \<Rightarrow> ps);
          ellipsis = (length params > 0 \<and> param_is_ident (last params) [''__dotdotdot__'']);
          params1 = (if ellipsis then butlast params else params);
          params2 = (if length params1 = 1 \<and> param_is_ident (params1 ! 0) [''void'']
                     then [] else params1)
      in (params2, ellipsis))"

text \<open>
  The test in the loop over the fields of a struct: the type of the field is an
  \<^verbatim>\<open>IdentifierType\<close> itself and its names, joined, spell \<^verbatim>\<open>__dotdotdot__\<close>.
\<close>

definition is_dotdotdot :: "typenode \<Rightarrow> bool" where
  "is_dotdotdot type =
     (case type of IdentifierType names \<Rightarrow> concat names = ''__dotdotdot__'' | _ \<Rightarrow> False)"

text \<open>
  \<^verbatim>\<open>Parser._get_type\<close>, \<^verbatim>\<open>Parser._parse_function_type\<close> (applied to the \<^verbatim>\<open>args\<close> and the
  \<^verbatim>\<open>type\<close> of the \<^verbatim>\<open>FuncDecl\<close>) and \<^verbatim>\<open>Parser._get_struct_or_union_type\<close> (applied to the
  identity, the \<^verbatim>\<open>name\<close> and the \<^verbatim>\<open>decls\<close> of the node). \<open>get_arg_types\<close> is the list
  comprehension over the parameters and \<open>fields_loop\<close> the loop over \<^verbatim>\<open>type.decls\<close> with its
  three lists. The unused argument \<^verbatim>\<open>name\<close> of \<^verbatim>\<open>_get_type\<close> is left out.
\<close>

function (sequential) get_type :: "typenode \<Rightarrow> bool \<Rightarrow> bool \<Rightarrow> parser \<Rightarrow> ty result"
  and parse_function_type :: "decl list option \<Rightarrow> typenode \<Rightarrow> parser \<Rightarrow> ty result"
  and get_arg_types :: "decl list \<Rightarrow> parser \<Rightarrow> ty list result"
  and get_struct_or_union_type ::
        "string \<Rightarrow> nat \<Rightarrow> string option \<Rightarrow> decl list option \<Rightarrow> string option \<Rightarrow> parser \<Rightarrow> ty result"
  and fields_loop ::
        "decl list \<Rightarrow> string option list \<Rightarrow> ty list \<Rightarrow> int list \<Rightarrow> parser
           \<Rightarrow> (string option list \<times> ty list \<times> int list) result"
where
  "get_type (TypeDecl declname type) convert_array_to_pointer force_pointer st =
     (case typedef_lookup type st of
        Some t \<Rightarrow>
          (case t of
             ArrayType element len \<Rightarrow>
               (if convert_array_to_pointer then (Inr (ArrayType_item element), st)
                else (Inr t, st))
           | _ \<Rightarrow>
               (if force_pointer then (Inr (get_type_pointer t), st) else (Inr t, st)))
      | None \<Rightarrow>
          (if force_pointer
           then map_result PointerType (get_type (TypeDecl declname type) False False st)
           else
             (case type of
                IdentifierType names \<Rightarrow>
                  (case primitive_ident names of
                     Inl err \<Rightarrow> (Inl err, st)
                   | Inr ident \<Rightarrow>
                       (if ident = ''void'' then (Inr VoidType, st)
                        else (Inr (PrimitiveType ident), st)))
              | Struct nid name decls \<Rightarrow>
                  get_struct_or_union_type ''struct'' nid name decls declname st
              | Union nid name decls \<Rightarrow>
                  get_struct_or_union_type ''union'' nid name decls declname st
              | Enum name values \<Rightarrow> get_enum_type name values st
              | _ \<Rightarrow> (Inl (FFIError ''bad or unsupported type declaration''), st))))"
| "get_type (ArrayDecl type dim) convert_array_to_pointer force_pointer st =
     (if convert_array_to_pointer
      then map_result get_type_pointer (get_type type False False st)
      else
        (case (case dim of None \<Rightarrow> Inr None
                         | Some e \<Rightarrow> map_sum id Some (parse_constant e)) of
           Inl err \<Rightarrow> (Inl err, st)
         | Inr len \<Rightarrow> map_result (\<lambda>item. ArrayType item len) (get_type type False False st)))"
| "get_type (PtrDecl type) convert_array_to_pointer force_pointer st =
     (if force_pointer
      then map_result PointerType (get_type (PtrDecl type) False False st)
      else map_result get_type_pointer (get_type type False False st))"
| "get_type (FuncDecl args type) convert_array_to_pointer force_pointer st =
     (if force_pointer
      then map_result PointerType (get_type (FuncDecl args type) False False st)
      else parse_function_type args type st)"
| "get_type (IdentifierType names) convert_array_to_pointer force_pointer st =
     (if force_pointer
      then map_result PointerType (get_type (IdentifierType names) False False st)
      else (Inl (FFIError ''bad or unsupported type declaration''), st))"
| "get_type (Struct nid name decls) convert_array_to_pointer force_pointer st =
     (if force_pointer
      then map_result PointerType (get_type (Struct nid name decls) False False st)
      else (Inl (FFIError ''bad or unsupported type declaration''), st))"
| "get_type (Union nid name decls) convert_array_to_pointer force_pointer st =
     (if force_pointer
      then map_result PointerType (get_type (Union nid name decls) False False st)
      else (Inl (FFIError ''bad or unsupported type declaration''), st))"
| "get_type (Enum name values) convert_array_to_pointer force_pointer st =
     (if force_pointer
      then map_result PointerType (get_type (Enum name values) False False st)
      else (Inl (FFIError ''bad or unsupported type declaration''), st))"
| "parse_function_type args type st =
     (case get_arg_types (fst (function_params args)) st of
        (Inl err, st1) \<Rightarrow> (Inl err, st1)
      | (Inr argtypes, st1) \<Rightarrow>
          map_result (\<lambda>result. FunctionType argtypes result (snd (function_params args)))
            (get_type type False False st1))"
| "get_arg_types [] st = (Inr [], st)"
| "get_arg_types (Decl name type bitsize # params) st =
     (case get_type type True False st of
        (Inl err, st1) \<Rightarrow> (Inl err, st1)
      | (Inr t, st1) \<Rightarrow> map_result (\<lambda>ts. t # ts) (get_arg_types params st1))"
| "get_struct_or_union_type kind nid name decls declname st =
     (case structnode2type st nid of
        Some tp \<Rightarrow> (Inr tp, st)
      | None \<Rightarrow>
          (case struct_skeleton kind name declname st of
             (Inl err, st1) \<Rightarrow> (Inl err, st1)
           | (Inr tp, st1) \<Rightarrow>
               (let st2 = st1\<lparr>structnode2type := (structnode2type st1)(nid \<mapsto> tp)\<rparr> in
                case decls of
                  None \<Rightarrow> (Inr tp, st2)
                | Some ds \<Rightarrow>
                    (case get_fldnames tp st2 of
                       Inl err \<Rightarrow> (Inl err, st2)
                     | Inr (Some fn) \<Rightarrow>
                         (Inl (CDefError (''duplicate declaration of struct '' @ py_str name)), st2)
                     | Inr None \<Rightarrow>
                         (case fields_loop ds [] [] [] st2 of
                            (Inl err, st3) \<Rightarrow> (Inl err, st3)
                          | (Inr (fldnames, fldtypes, fldbitsize), st3) \<Rightarrow>
                              (Inr tp, set_fields tp fldnames fldtypes fldbitsize st3))))))"
| "fields_loop [] fldnames fldtypes fldbitsize st = (Inr (fldnames, fldtypes, fldbitsize), st)"
| "fields_loop (Decl name type bitsize # decls) fldnames fldtypes fldbitsize st =
     (if is_dotdotdot type then (Inl (NameError ''xxxx''), st)
      else
        (case (case bitsize of None \<Rightarrow> Inr (- 1) | Some e \<Rightarrow> parse_constant e) of
           Inl err \<Rightarrow> (Inl err, st)
         | Inr b \<Rightarrow>
             (case get_type type False False st of
                (Inl err, st1) \<Rightarrow> (Inl err, st1)
              | (Inr t, st1) \<Rightarrow>
                  fields_loop decls (fldnames @ [name]) (fldtypes @ [t]) (fldbitsize @ [b]) st1)))"

  by pat_completeness auto

termination
proof (relation "measure (\<lambda>x. case x of
      Inl (Inl (tn, c, f, st)) \<Rightarrow> 3 * size tn + (if f then 1 else 0)
    | Inl (Inr (args, t, st)) \<Rightarrow> 3 * (size_option (size_list size) args + size t) + 2
    | Inr (Inl (ps, st)) \<Rightarrow> 3 * size_list size ps + 1
    | Inr (Inr (Inl (kind, nid, name, decls, dn, st))) \<Rightarrow> 3 * size_option (size_list size) decls + 2
    | Inr (Inr (Inr (ds, ns, ts, bs, st))) \<Rightarrow> 3 * size_list size ds + 1)", goal_cases)
  case (15 args type st)
  have b: "size_list size (butlast ps) \<le> size_list size ps" for ps :: "decl list"
    by (induction ps) auto
  have "size_list size (fst (function_params args)) \<le> size_option (size_list size) args"
    using b by (cases args) (auto simp: function_params_def Let_def intro: le_SucI)
  then show ?case by simp
qed simp_all

declare get_struct_or_union_type.simps [simp del]
declare parse_function_type.simps [simp del]

section \<open>The registrar\<close>

text \<open>
  \<^verbatim>\<open>Parser._parse_decl\<close>. The arguments of a call are evaluated from left to right: the
  key \<^verbatim>\<open>'function ' + decl.name\<close> first (a \<^verbatim>\<open>TypeError\<close> when the name is \<^verbatim>\<open>None\<close>), then
  \<^verbatim>\<open>self._get_type(...)\<close>, and only then does \<^verbatim>\<open>_declare\<close> look the key up. The calls in
  the branches for struct, union and enum nodes pass no \<^verbatim>\<open>typenode\<close>.
\<close>

definition declare_variable :: "string option \<Rightarrow> typenode \<Rightarrow> parser \<Rightarrow> unit result" where
  "declare_variable name node st =
     (if truthy name
      then (case get_type node False False st of
              (Inl err, st1) \<Rightarrow> (Inl err, st1)
            | (Inr t, st1) \<Rightarrow> declare_entry (''variable '' @ the name) t st1)
      else (Inr (), st))"

fun parse_decl :: "decl \<Rightarrow> parser \<Rightarrow> unit result" where
  "parse_decl (Decl name node bitsize) st =
     (case node of
        FuncDecl args type \<Rightarrow>
          (case name of
             None \<Rightarrow> (Inl TypeError, st)
           | Some n \<Rightarrow>
               (case get_type node False False st of
                  (Inl err, st1) \<Rightarrow> (Inl err, st1)
                | (Inr t, st1) \<Rightarrow> declare_entry (''function '' @ n) t st1))
      | Struct nid sname decls \<Rightarrow>
          (if decls \<noteq> None
           then (case get_struct_or_union_type ''struct'' nid sname decls None st of
                   (Inl err, st1) \<Rightarrow> (Inl err, st1)
                 | (Inr t, st1) \<Rightarrow> declare_variable name node st1)
           else declare_variable name node st)
      | Union nid sname decls \<Rightarrow>
          (if decls \<noteq> None
           then (case get_struct_or_union_type ''union'' nid sname decls None st of
                   (Inl err, st1) \<Rightarrow> (Inl err, st1)
                 | (Inr t, st1) \<Rightarrow> declare_variable name node st1)
           else declare_variable name node st)
      | Enum ename values \<Rightarrow>
          (if values \<noteq> None
           then (case get_enum_type ename values st of
                   (Inl err, st1) \<Rightarrow> (Inl err, st1)
                 | (Inr t, st1) \<Rightarrow> declare_variable name node st1)
           else declare_variable name node st)
      | _ \<Rightarrow>
          (if \<not> truthy name
           then (Inl (CDefError ''construct does not declare any variable''), st)
           else declare_variable name node st))"

text \<open>
  \<^verbatim>\<open>Parser.parse\<close>, from the list \<^verbatim>\<open>ast.ext\<close> that \<^verbatim>\<open>self._parse(csource)\<close> returns. The first
  loop consumes the entries up to and including the first one named \<^verbatim>\<open>__dotdotdot__\<close>;
  reading \<^verbatim>\<open>decl.name\<close> fails on an entry that has no such attribute. The second loop
  handles the entries that are left.
\<close>

fun ext_name :: "ext_node \<Rightarrow> string option option" where
  "ext_name (ExtDecl (Decl name type bitsize)) = Some name"
| "ext_name (Typedef name type) = Some name"
| "ext_name OtherExt = None"

fun skip_to_separator :: "ext_node list \<Rightarrow> error + ext_node list" where
  "skip_to_separator [] = Inr []"
| "skip_to_separator (d # ds) =
     (case ext_name d of
        None \<Rightarrow> Inl AttributeError
      | Some n \<Rightarrow> (if n = Some ''__dotdotdot__'' then Inr ds else skip_to_separator ds))"

fun parse_ext :: "ext_node \<Rightarrow> parser \<Rightarrow> unit result" where
  "parse_ext (ExtDecl d) st = parse_decl d st"
| "parse_ext (Typedef name type) st =
     (if \<not> truthy name
      then (Inl (CDefError ''typedef does not declare any name''), st)
      else (case get_type type False False st of
              (Inl err, st1) \<Rightarrow> (Inl err, st1)
            | (Inr t, st1) \<Rightarrow> declare_entry (''typedef '' @ the name) t st1))"
| "parse_ext OtherExt st = (Inl (CDefError ''unrecognized construct''), st)"

fun parse_loop :: "ext_node list \<Rightarrow> parser \<Rightarrow> unit result" where
  "parse_loop [] st = (Inr (), st)"
| "parse_loop (d # ds) st =
     (case parse_ext d st of
        (Inl err, st1) \<Rightarrow> (Inl err, st1)
      | (Inr u, st1) \<Rightarrow> parse_loop ds st1)"

definition parse :: "ext_node list \<Rightarrow> parser \<Rightarrow> unit result" where
  "parse ext st =
     (case skip_to_separator ext of
        Inl err \<Rightarrow> (Inl err, st)
      | Inr rest \<Rightarrow> parse_loop rest st)"

text \<open>
  \<^verbatim>\<open>Parser.parse_type\<close>, from the list \<^verbatim>\<open>ast.ext\<close> that
  \<^verbatim>\<open>self._parse('void __dummy(%s);' % cdecl)\<close> returns. \<open>dummy_param_type\<close> is the read
  \<^verbatim>\<open>ast.ext[-1].type.args.params[0].type\<close>, each step of which can fail.
\<close>

fun ext_type :: "ext_node \<Rightarrow> typenode option" where
  "ext_type (ExtDecl (Decl name type bitsize)) = Some type"
| "ext_type (Typedef name type) = Some type"
| "ext_type OtherExt = None"

definition dummy_param_type :: "ext_node list \<Rightarrow> error + typenode" where
  "dummy_param_type ext =
     (if ext = [] then Inl IndexError
      else (case ext_type (last ext) of
              Some (FuncDecl args type) \<Rightarrow>
                (case args of
                   None \<Rightarrow> Inl AttributeError
                 | Some [] \<Rightarrow> Inl IndexError
                 | Some (Decl pname ptype pbitsize # ps) \<Rightarrow> Inr ptype)
            | _ \<Rightarrow> Inl AttributeError))"

definition parse_type :: "ext_node list \<Rightarrow> bool \<Rightarrow> parser \<Rightarrow> ty result" where
  "parse_type ext force_pointer st =
     (case dummy_param_type ext of
        Inl err \<Rightarrow> (Inl err, st)
      | Inr typenode \<Rightarrow> get_type typenode False force_pointer st)"

section \<open>Sequences of calls, and how the parser grows\<close>

text \<open>
  A client holds one \<^verbatim>\<open>Parser\<close> and calls \<^verbatim>\<open>parse\<close> and \<^verbatim>\<open>parse_type\<close> on it, any number of
  times and in any order; a call that raises leaves the parser as it was at the raise.
\<close>

datatype call = ParseCall "ext_node list" | ParseTypeCall "ext_node list" bool

fun do_call :: "call \<Rightarrow> parser \<Rightarrow> parser" where
  "do_call (ParseCall ext) st = snd (parse ext st)"
| "do_call (ParseTypeCall ext force_pointer) st = snd (parse_type ext force_pointer st)"

fun run_calls :: "call list \<Rightarrow> parser \<Rightarrow> parser" where
  "run_calls [] st = st"
| "run_calls (c # cs) st = run_calls cs (do_call c st)"

text \<open>The attributes of a declaration node and of a struct or union object.\<close>

fun decl_name :: "decl \<Rightarrow> string option" where
  "decl_name (Decl name type bitsize) = name"


fun obj_fldnames :: "obj \<Rightarrow> string option list option" where
  "obj_fldnames (StructType n fn ft fb) = fn"
| "obj_fldnames (UnionType n fn ft fb) = fn"
| "obj_fldnames (EnumType n es vs) = None"

fun obj_fldtypes :: "obj \<Rightarrow> ty list option" where
  "obj_fldtypes (StructType n fn ft fb) = ft"
| "obj_fldtypes (UnionType n fn ft fb) = ft"
| "obj_fldtypes (EnumType n es vs) = None"


text \<open>
  The keys of the three tag namespaces, and the order in which the resolver leaves a
  parser behind: entries of the declarations and of \<^verbatim>\<open>_structnode2type\<close> stay as they
  are, a new key of the declarations is a tag key, the store only gets longer, and a
  struct or union object stays one.
\<close>

definition tag_key :: "string \<Rightarrow> bool" where
  "tag_key k \<longleftrightarrow> take 7 k = ''struct '' \<or> take 6 k = ''union '' \<or> take 5 k = ''enum ''"

fun is_aggregate :: "obj \<Rightarrow> bool" where
  "is_aggregate (StructType n fn ft fb) = True"
| "is_aggregate (UnionType n fn ft fb) = True"
| "is_aggregate (EnumType n es vs) = False"

definition grows :: "parser \<Rightarrow> parser \<Rightarrow> bool" where
  "grows st st' \<longleftrightarrow>
     declarations st \<subseteq>\<^sub>m declarations st' \<and>
     (\<forall>k t. declarations st' k = Some t \<longrightarrow> declarations st k = None \<longrightarrow> tag_key k) \<and>
     structnode2type st \<subseteq>\<^sub>m structnode2type st' \<and>
     length (heap st) \<le> length (heap st') \<and>
     (\<forall>a < length (heap st). is_aggregate (heap st ! a) \<longrightarrow> is_aggregate (heap st' ! a))"

text \<open>
  What an entry of \<^verbatim>\<open>ast.ext\<close> makes \<^verbatim>\<open>parse\<close> pass to \<^verbatim>\<open>_declare\<close>: the qualified name and
  the node whose type is registered under it, for a typedef, a function and a variable.
  \<open>is_tag_node\<close> holds of a struct, union or enum node that is the type of a declaration
  itself, with no \<^verbatim>\<open>TypeDecl\<close> around it.
\<close>

fun is_tag_node :: "typenode \<Rightarrow> bool" where
  "is_tag_node (Struct nid name decls) = True"
| "is_tag_node (Union nid name decls) = True"
| "is_tag_node (Enum name values) = True"
| "is_tag_node node = False"

fun declared :: "ext_node \<Rightarrow> (string \<times> typenode) option" where
  "declared (Typedef name type) =
     (if truthy name then Some (''typedef '' @ the name, type) else None)"
| "declared (ExtDecl (Decl name (FuncDecl args type) bitsize)) =
     (case name of None \<Rightarrow> None | Some n \<Rightarrow> Some (''function '' @ n, FuncDecl args type))"
| "declared (ExtDecl (Decl name node bitsize)) =
     (if truthy name then Some (''variable '' @ the name, node) else None)"
| "declared OtherExt = None"

text \<open>
  The call \<^verbatim>\<open>self._declare(name, self._get_type(node))\<close>, which \<^verbatim>\<open>parse\<close> and \<^verbatim>\<open>_parse_decl\<close>
  make for a typedef, a function and a variable: the type is resolved first, then the
  name is declared.
\<close>

definition resolve_and_declare :: "string \<Rightarrow> typenode \<Rightarrow> parser \<Rightarrow> unit result" where
  "resolve_and_declare k node st =
     (case get_type node False False st of
        (Inl err, st1) \<Rightarrow> (Inl err, st1)
      | (Inr t, st1) \<Rightarrow> declare_entry k t st1)"

section \<open>Fragments used as examples\<close>

text \<open>
  Every list \<^verbatim>\<open>ast.ext\<close> that \<^verbatim>\<open>_parse\<close> returns starts with the typedefs it has put in
  front of the source; the last of them is \<^verbatim>\<open>typedef int __dotdotdot__;\<close>.
\<close>

definition sentinel_typedef :: ext_node where
  "sentinel_typedef = Typedef (Some ''__dotdotdot__'')
                        (TypeDecl (Some ''__dotdotdot__'') (IdentifierType [''int'']))"

text \<open>\<^verbatim>\<open>typedef int arr_t[10]; void f(arr_t a);\<close>\<close>

definition typedef_array_fragment :: "ext_node list" where
  "typedef_array_fragment =
     [sentinel_typedef,
      Typedef (Some ''arr_t'')
        (ArrayDecl (TypeDecl (Some ''arr_t'') (IdentifierType [''int''])) (Some (Constant ''10''))),
      ExtDecl (Decl (Some ''f'')
        (FuncDecl (Some [Decl (Some ''a'') (TypeDecl (Some ''a'') (IdentifierType [''arr_t''])) None])
           (TypeDecl (Some ''f'') (IdentifierType [''void''])))
        None)]"

text \<open>
  \<^verbatim>\<open>struct foo { int a; ...; };\<close> The front end gives a member that is only a type name the
  \<^verbatim>\<open>IdentifierType\<close> itself as its type, with no \<^verbatim>\<open>TypeDecl\<close> around it.
\<close>

definition struct_with_dots_fragment :: "ext_node list" where
  "struct_with_dots_fragment =
     [sentinel_typedef,
      ExtDecl (Decl None
        (Struct 1 (Some ''foo'')
           (Some [Decl (Some ''a'') (TypeDecl (Some ''a'') (IdentifierType [''int''])) None,
                  Decl None (IdentifierType [''__dotdotdot__'']) None]))
        None)]"

text \<open>\<^verbatim>\<open>enum { A, B } x; enum { C, D } y;\<close>\<close>

definition two_anonymous_enums_fragment :: "ext_node list" where
  "two_anonymous_enums_fragment =
     [sentinel_typedef,
      ExtDecl (Decl (Some ''x'')
        (TypeDecl (Some ''x'') (Enum None (Some [Enumerator ''A'' None, Enumerator ''B'' None])))
        None),
      ExtDecl (Decl (Some ''y'')
        (TypeDecl (Some ''y'') (Enum None (Some [Enumerator ''C'' None, Enumerator ''D'' None])))
        None)]"

text \<open>\<^verbatim>\<open>int x; int y[n];\<close>\<close>

definition failing_fragment :: "ext_node list" where
  "failing_fragment =
     [sentinel_typedef,
      ExtDecl (Decl (Some ''x'') (TypeDecl (Some ''x'') (IdentifierType [''int''])) None),
      ExtDecl (Decl (Some ''y'')
        (ArrayDecl (TypeDecl (Some ''y'') (IdentifierType [''int''])) (Some OtherExpr)) None)]"

text \<open>\<^verbatim>\<open>struct Point { int x; };\<close>\<close>

definition point_fragment :: "ext_node list" where
  "point_fragment =
     [sentinel_typedef,
      ExtDecl (Decl None
        (Struct 1 (Some ''Point'')
           (Some [Decl (Some ''x'') (TypeDecl (Some ''x'') (IdentifierType [''int''])) None]))
        None)]"

text \<open>
  The list that \<^verbatim>\<open>parse_type("struct foo *")\<close> gets from \<^verbatim>\<open>_parse\<close>, for the source
  \<^verbatim>\<open>void __dummy(struct foo *);\<close>
\<close>

definition struct_pointer_type_fragment :: "ext_node list" where
  "struct_pointer_type_fragment =
     [sentinel_typedef,
      ExtDecl (Decl (Some ''__dummy'')
        (FuncDecl (Some [Decl None (PtrDecl (TypeDecl None (Struct 1 (Some ''foo'') None))) None])
           (TypeDecl (Some ''__dummy'') (IdentifierType [''void''])))
        None)]"

text \<open>\<^verbatim>\<open>enum foo { A }; enum foo { B = 7 };\<close>\<close>

definition enum_twice_fragment :: "ext_node list" where
  "enum_twice_fragment =
     [sentinel_typedef,
      ExtDecl (Decl None (Enum (Some ''foo'') (Some [Enumerator ''A'' None])) None),
      ExtDecl (Decl None
        (Enum (Some ''foo'') (Some [Enumerator ''B'' (Some (Constant ''7''))])) None)]"

text \<open>\<^verbatim>\<open>int x; char x;\<close>\<close>

definition duplicate_variable_fragment :: "ext_node list" where
  "duplicate_variable_fragment =
     [sentinel_typedef,
      ExtDecl (Decl (Some ''x'') (TypeDecl (Some ''x'') (IdentifierType [''int''])) None),
      ExtDecl (Decl (Some ''x'') (TypeDecl (Some ''x'') (IdentifierType [''char''])) None)]"



section \<open>The resolver only adds to the parser\<close>

lemma grows_refl [simp]: "grows st st"
  by (simp add: grows_def)

lemma grows_trans: "grows st1 st2 \<Longrightarrow> grows st2 st3 \<Longrightarrow> grows st1 st3"
  unfolding grows_def
  apply (intro conjI)
      apply (blast intro: map_le_trans)
     apply (metis domIff map_le_def option.exhaust)
    apply (blast intro: map_le_trans)
   apply linarith
  apply (meson less_le_trans)
  done

lemma snd_map_result [simp]: "snd (map_result f r) = snd r"
  by (cases r) (auto simp: map_result_def split: sum.splits)

lemma grows_new_obj: "grows st (snd (new_obj ob st))"
  by (auto simp: grows_def new_obj_def nth_append)

lemma grows_declare_tag: "tag_key k \<Longrightarrow> grows st (snd (declare_entry k t st))"
  by (auto simp: grows_def declare_entry_def map_le_def)

lemma grows_create_aggregate: "grows st (snd (create_aggregate kind n st))"
  by (auto simp: create_aggregate_def grows_def new_obj_def nth_append)

lemma create_aggregate_kind:
  "create_aggregate kind n st = (Inr tp, st1) \<Longrightarrow> kind = ''struct'' \<or> kind = ''union''"
  by (auto simp: create_aggregate_def split: if_splits)

lemma grows_counter: "grows st (st\<lparr>anonymous_counter := c\<rparr>)"
  by (simp add: grows_def)

lemma grows_struct_skeleton: "grows st (snd (struct_skeleton kind name declname st))"
proof (cases name)
  case None
  then show ?thesis
    by (auto simp: struct_skeleton_def split: option.splits
             intro: grows_create_aggregate grows_trans [OF grows_counter grows_create_aggregate])
next
  case (Some n)
  show ?thesis
  proof (cases "declarations st (kind @ '' '' @ n)")
    case None
    obtain r st1 where c: "create_aggregate kind n st = (r, st1)"
      by (cases "create_aggregate kind n st")
    have g1: "grows st st1" using grows_create_aggregate [of st kind n] c by simp
    show ?thesis
    proof (cases r)
      case (Inl e)
      then show ?thesis using Some None c g1 by (simp add: struct_skeleton_def)
    next
      case (Inr tp)
      then have "kind = ''struct'' \<or> kind = ''union''"
        using c create_aggregate_kind by blast
      then have "tag_key (kind @ '' '' @ n)" by (auto simp: tag_key_def)
      then have "grows st1 (snd (declare_entry (kind @ '' '' @ n) tp st1))"
        by (rule grows_declare_tag)
      then show ?thesis using Some None c g1 Inr
        by (auto simp: struct_skeleton_def intro: grows_trans)
    qed
  next
    case (Some tp)
    then show ?thesis using \<open>name = Some n\<close> by (simp add: struct_skeleton_def)
  qed
qed

lemma grows_get_enum_type: "grows st (snd (get_enum_type name decls st))"
proof -
  have t: "tag_key (''enum '' @ py_str name)" by (simp add: tag_key_def)
  show ?thesis
    using t
    by (auto simp: get_enum_type_def Let_def grows_def new_obj_def map_le_def nth_append
             split: option.splits sum.splits)
qed

lemma grows_cache:
  "structnode2type st nid = None \<Longrightarrow> grows st (st\<lparr>structnode2type := (structnode2type st)(nid \<mapsto> tp)\<rparr>)"
  by (auto simp: grows_def map_le_def)

lemma is_aggregate_set_obj_fields [simp]:
  "is_aggregate (set_obj_fields ob ns ts bs) = is_aggregate ob"
  by (cases ob) (simp_all add: set_obj_fields_def)

lemma grows_set_fields: "grows st (set_fields tp ns ts bs st)"
proof (cases tp)
  case (ObjRef x)
  have "is_aggregate ((heap st)[x := set_obj_fields (heap st ! x) ns ts bs] ! a)
          = is_aggregate (heap st ! a)" if "a < length (heap st)" for a
    using that by (cases "x = a") simp_all
  then show ?thesis using ObjRef by (simp add: grows_def set_fields_def)
qed (simp_all add: set_fields_def)

lemma resolver_grows:
  "grows st (snd (get_type typenode cvt fp st))"
  "grows st (snd (parse_function_type args rtype st))"
  "grows st (snd (get_arg_types params st))"
  "grows st (snd (get_struct_or_union_type kind nid name decls declname st))"
  "grows st (snd (fields_loop ds ns ts bs st))"
proof (induction typenode cvt fp st and args rtype st and params st
         and kind nid name decls declname st and ds ns ts bs st
       rule: get_type_parse_function_type_get_arg_types_get_struct_or_union_type_fields_loop.induct)
  case (1 declname type convert_array_to_pointer force_pointer st)
  then show ?case
    by (auto simp: grows_get_enum_type split: option.splits ty.splits typenode.splits sum.splits)
next
  case (2 type dim convert_array_to_pointer force_pointer st)
  then show ?case by (auto split: sum.splits)
next
  case (3 type convert_array_to_pointer force_pointer st)
  then show ?case by auto
next
  case (4 args type convert_array_to_pointer force_pointer st)
  then show ?case by auto
next
  case (5 names convert_array_to_pointer force_pointer st)
  then show ?case by auto
next
  case (6 nid name decls convert_array_to_pointer force_pointer st)
  then show ?case by auto
next
  case (7 nid name decls convert_array_to_pointer force_pointer st)
  then show ?case by auto
next
  case (8 name "values" convert_array_to_pointer force_pointer st)
  then show ?case by auto
next
  case (9 args type st)
  obtain r st1 where c: "get_arg_types (fst (function_params args)) st = (r, st1)"
    by (cases "get_arg_types (fst (function_params args)) st")
  have g1: "grows st st1" using 9(1) c by simp
  show ?case
  proof (cases r)
    case (Inl e)
    then show ?thesis using c g1 by (simp add: parse_function_type.simps)
  next
    case (Inr argtypes)
    have "grows st1 (snd (get_type type False False st1))"
      using 9(2) [of r st1 argtypes] c Inr by simp
    then show ?thesis using c g1 Inr
      by (auto simp: parse_function_type.simps intro: grows_trans)
  qed
next
  case (10 st)
  then show ?case by simp
next
  case (11 name type bitsize params st)
  obtain r st1 where c: "get_type type True False st = (r, st1)"
    by (cases "get_type type True False st")
  have g1: "grows st st1" using 11(1) c by simp
  show ?case
  proof (cases r)
    case (Inl e)
    then show ?thesis using c g1 by simp
  next
    case (Inr t)
    have "grows st1 (snd (get_arg_types params st1))"
      using 11(2) [of r st1 t] c Inr by simp
    then show ?thesis using c g1 Inr by (auto intro: grows_trans)
  qed
next
  case (12 kind nid name decls declname st)
  show ?case
  proof (cases "structnode2type st nid")
    case (Some tp)
    then show ?thesis by (simp add: get_struct_or_union_type.simps)
  next
    case None
    obtain r st1 where c: "struct_skeleton kind name declname st = (r, st1)"
      by (cases "struct_skeleton kind name declname st")
    have g1: "grows st st1" using grows_struct_skeleton [of st kind name declname] c by simp
    show ?thesis
    proof (cases r)
      case (Inl e)
      then show ?thesis using None c g1 by (simp add: get_struct_or_union_type.simps)
    next
      case (Inr tp)
      define st2 where "st2 = st1\<lparr>structnode2type := (structnode2type st1)(nid \<mapsto> tp)\<rparr>"
      have "structnode2type st1 nid = None"
        using None c
        by (auto simp: struct_skeleton_def create_aggregate_def new_obj_def declare_entry_def
                       map_result_def Let_def
                 split: option.splits if_splits prod.splits sum.splits)
      then have "grows st1 st2" unfolding st2_def by (rule grows_cache)
      with g1 have g2: "grows st st2" by (rule grows_trans)
      show ?thesis
      proof (cases decls)
        case None
        then show ?thesis using \<open>structnode2type st nid = None\<close> c Inr g2
          by (simp add: get_struct_or_union_type.simps st2_def)
      next
        case (Some x2)
        show ?thesis
        proof (cases "get_fldnames tp st2")
          case (Inl e)
          then show ?thesis using \<open>structnode2type st nid = None\<close> c Inr g2 Some
            by (simp add: get_struct_or_union_type.simps st2_def)
        next
          case (Inr fn)
          note fnr = this
          show ?thesis
          proof (cases fn)
            case (Some a)
            then show ?thesis
              using \<open>structnode2type st nid = None\<close> c \<open>r = Inr tp\<close> g2 \<open>decls = Some x2\<close> fnr
              by (simp add: get_struct_or_union_type.simps st2_def)
          next
            case None
            have ih: "grows st2 (snd (fields_loop x2 [] [] [] st2))"
              using 12 [of r st1 tp st2 x2 fn] \<open>structnode2type st nid = None\<close> c \<open>r = Inr tp\<close>
                    \<open>decls = Some x2\<close> fnr None st2_def by simp
            obtain r3 st3 where f: "fields_loop x2 [] [] [] st2 = (r3, st3)"
              by (cases "fields_loop x2 [] [] [] st2")
            have g3: "grows st st3" using g2 ih f by (auto intro: grows_trans)
            show ?thesis
            proof (cases r3)
              case (Inl e)
              then show ?thesis
                using \<open>structnode2type st nid = None\<close> c \<open>r = Inr tp\<close> g3 \<open>decls = Some x2\<close> fnr None f
                by (simp add: get_struct_or_union_type.simps st2_def [symmetric])
            next
              case (Inr res)
              obtain fldnames fldtypes fldbitsize where res: "res = (fldnames, fldtypes, fldbitsize)"
                by (cases res)
              have "grows st (set_fields tp fldnames fldtypes fldbitsize st3)"
                using g3 grows_set_fields by (rule grows_trans)
              then show ?thesis
                using \<open>structnode2type st nid = None\<close> c \<open>r = Inr tp\<close> \<open>decls = Some x2\<close> fnr None f Inr res
                by (simp add: get_struct_or_union_type.simps st2_def [symmetric])
            qed
          qed
        qed
      qed
    qed
  qed
next
  case (13 fldnames fldtypes fldbitsize st)
  then show ?case by simp
next
  case (14 name type bitsize decls fldnames fldtypes fldbitsize st)
  show ?case
  proof (cases "is_dotdotdot type")
    case True
    then show ?thesis by simp
  next
    case False
    show ?thesis
    proof (cases "case bitsize of None \<Rightarrow> Inr (- 1) | Some x \<Rightarrow> parse_constant x")
      case (Inl e)
      then show ?thesis using False by simp
    next
      case (Inr b)
      obtain r st1 where c: "get_type type False False st = (r, st1)"
        by (cases "get_type type False False st")
      have g1: "grows st st1" using 14(1) [OF False Inr] c by simp
      show ?thesis
      proof (cases r)
        case (Inl e)
        then show ?thesis using False \<open>_ = Inr b\<close> c g1 by simp
      next
        case rr: (Inr t)
        have "grows st1 (snd (fields_loop decls (fldnames @ [name]) (fldtypes @ [t]) (fldbitsize @ [b]) st1))"
          using 14(2) [OF False Inr, of r st1 t] c rr by simp
        then show ?thesis using False Inr c g1 rr by (auto intro: grows_trans)
      qed
    qed
  qed
qed

section \<open>The registrar keeps every entry\<close>

lemma grows_keeps: "grows st st' \<Longrightarrow> declarations st \<subseteq>\<^sub>m declarations st'"
  by (simp add: grows_def)

lemma declare_entry_keeps: "declarations st \<subseteq>\<^sub>m declarations (snd (declare_entry k t st))"
  by (auto simp: declare_entry_def map_le_def)

lemma get_type_keeps: "declarations st \<subseteq>\<^sub>m declarations (snd (get_type typenode cvt fp st))"
  by (rule grows_keeps) (rule resolver_grows)

lemma get_type_then_declare_keeps:
  "declarations st \<subseteq>\<^sub>m
     declarations (snd (case get_type typenode False False st of
                          (Inl err, st1) \<Rightarrow> (Inl err, st1)
                        | (Inr t, st1) \<Rightarrow> declare_entry k t st1))"
proof (cases "get_type typenode False False st")
  case (Pair r st1)
  then have "declarations st \<subseteq>\<^sub>m declarations st1"
    using get_type_keeps [of st typenode False False] by simp
  then show ?thesis
    using Pair declare_entry_keeps [of st1 k]
    by (cases r) (auto intro: map_le_trans)
qed

lemma declare_variable_keeps:
  "declarations st \<subseteq>\<^sub>m declarations (snd (declare_variable name node st))"
  using get_type_then_declare_keeps [where st = st and typenode = node]
  by (simp add: declare_variable_def)

lemma then_declare_variable_keeps:
  assumes "declarations st \<subseteq>\<^sub>m declarations (snd r)"
  shows "declarations st \<subseteq>\<^sub>m
           declarations (snd (case r of (Inl err, st1) \<Rightarrow> (Inl err, st1)
                                      | (Inr t, st1) \<Rightarrow> declare_variable name node st1))"
proof (cases r)
  case (Pair x st1)
  then show ?thesis
    using assms declare_variable_keeps [of st1 name node]
    by (cases x) (auto intro: map_le_trans)
qed

lemma parse_decl_keeps: "declarations st \<subseteq>\<^sub>m declarations (snd (parse_decl d st))"
proof (cases d)
  case (Decl name node bitsize)
  show ?thesis
  proof (cases node)
    case (FuncDecl args type)
    then show ?thesis
      using Decl get_type_then_declare_keeps [where st = st and typenode = node]
      by (simp split: option.splits)
  next
    case (Struct nid sname decls)
    have "declarations st \<subseteq>\<^sub>m
            declarations (snd (get_struct_or_union_type ''struct'' nid sname decls None st))"
      by (rule grows_keeps) (rule resolver_grows)
    then show ?thesis
      using Decl Struct by (simp add: then_declare_variable_keeps declare_variable_keeps)
  next
    case (Union nid sname decls)
    have "declarations st \<subseteq>\<^sub>m
            declarations (snd (get_struct_or_union_type ''union'' nid sname decls None st))"
      by (rule grows_keeps) (rule resolver_grows)
    then show ?thesis
      using Decl Union by (simp add: then_declare_variable_keeps declare_variable_keeps)
  next
    case (Enum ename "values")
    have "declarations st \<subseteq>\<^sub>m declarations (snd (get_enum_type ename values st))"
      by (rule grows_keeps) (rule grows_get_enum_type)
    then show ?thesis
      using Decl Enum by (simp add: then_declare_variable_keeps declare_variable_keeps)
  qed (use Decl in \<open>simp_all add: declare_variable_keeps\<close>)
qed

lemma parse_ext_keeps: "declarations st \<subseteq>\<^sub>m declarations (snd (parse_ext d st))"
proof (cases d)
  case (ExtDecl x)
  then show ?thesis by (simp add: parse_decl_keeps)
next
  case (Typedef name type)
  then show ?thesis
    using get_type_then_declare_keeps [where st = st and typenode = type] by simp
next
  case OtherExt
  then show ?thesis by simp
qed

lemma parse_loop_keeps: "declarations st \<subseteq>\<^sub>m declarations (snd (parse_loop ds st))"
proof (induction ds arbitrary: st)
  case Nil
  then show ?case by simp
next
  case (Cons d ds)
  obtain r st1 where c: "parse_ext d st = (r, st1)" by (cases "parse_ext d st")
  have k1: "declarations st \<subseteq>\<^sub>m declarations st1"
    using parse_ext_keeps [of st d] c by simp
  show ?case
  proof (cases r)
    case (Inl e)
    then show ?thesis using c k1 by simp
  next
    case (Inr u)
    then show ?thesis using c k1 Cons.IH [of st1] by (auto intro: map_le_trans)
  qed
qed

lemma parse_keeps: "declarations st \<subseteq>\<^sub>m declarations (snd (parse ext st))"
  by (simp add: parse_def parse_loop_keeps split: sum.splits)

lemma parse_type_grows: "grows st (snd (parse_type ext fp st))"
  by (simp add: parse_type_def resolver_grows split: sum.splits)

lemma do_call_keeps: "declarations st \<subseteq>\<^sub>m declarations (do_call c st)"
  by (cases c) (simp_all add: parse_keeps grows_keeps parse_type_grows)

lemma run_calls_keeps: "declarations st \<subseteq>\<^sub>m declarations (run_calls cs st)"
proof (induction cs arbitrary: st)
  case Nil
  then show ?case by simp
next
  case (Cons c cs)
  show ?case using do_call_keeps [of st c] Cons.IH [of "do_call c st"]
    by (auto intro: map_le_trans)
qed

lemma parse_loop_append:
  "parse_loop (ds1 @ ds2) st =
     (case parse_loop ds1 st of (Inl err, st1) \<Rightarrow> (Inl err, st1)
                              | (Inr u, st1) \<Rightarrow> parse_loop ds2 st1)"
  by (induction ds1 arbitrary: st) (auto split: prod.splits sum.splits)

lemma tag_key_not_variable_or_function:
  assumes "tag_key k"
  shows "take 9 k \<noteq> ''variable '' \<and> take 9 k \<noteq> ''function ''"
proof (cases k)
  case Nil
  then show ?thesis by simp
next
  case (Cons c cs)
  then show ?thesis using assms by (auto simp: tag_key_def)
qed

lemma get_fldnames_cache [simp]:
  "get_fldnames tp (st\<lparr>structnode2type := c\<rparr>) = get_fldnames tp st"
  by (cases tp) (simp_all add: get_fldnames_def)

section \<open>A declaration that raises adds tags only\<close>

lemma declare_entry_failure: "fst (declare_entry k t st) = Inl err \<Longrightarrow> snd (declare_entry k t st) = st"
  by (auto simp: declare_entry_def split: if_splits)

lemma get_type_then_declare_failure:
  assumes "fst (case get_type typenode False False st of
                  (Inl err, st1) \<Rightarrow> (Inl err, st1)
                | (Inr t, st1) \<Rightarrow> declare_entry k t st1) = Inl e"
  shows "grows st (snd (case get_type typenode False False st of
                          (Inl err, st1) \<Rightarrow> (Inl err, st1)
                        | (Inr t, st1) \<Rightarrow> declare_entry k t st1))"
proof (cases "get_type typenode False False st")
  case (Pair r st1)
  then have g: "grows st st1"
    using resolver_grows(1) [of st typenode False False] by simp
  show ?thesis
  proof (cases r)
    case (Inl x)
    then show ?thesis using Pair g by simp
  next
    case (Inr t)
    then show ?thesis using Pair g assms declare_entry_failure [of k t st1 e] by simp
  qed
qed

lemma declare_variable_failure:
  "fst (declare_variable name node st) = Inl e \<Longrightarrow> grows st (snd (declare_variable name node st))"
  using get_type_then_declare_failure [where st = st and typenode = node]
  by (simp add: declare_variable_def split: if_splits)

lemma then_declare_variable_failure:
  assumes "grows st (snd r)"
      and "fst (case r of (Inl err, st1) \<Rightarrow> (Inl err, st1)
                        | (Inr t, st1) \<Rightarrow> declare_variable name node st1) = Inl e"
  shows "grows st (snd (case r of (Inl err, st1) \<Rightarrow> (Inl err, st1)
                                | (Inr t, st1) \<Rightarrow> declare_variable name node st1))"
proof (cases r)
  case (Pair x st1)
  show ?thesis
  proof (cases x)
    case (Inl a)
    then show ?thesis using Pair assms by simp
  next
    case (Inr b)
    then have "grows st1 (snd (declare_variable name node st1))"
      using Pair assms(2) declare_variable_failure by simp
    then show ?thesis using Pair Inr assms(1) by (auto intro: grows_trans)
  qed
qed

lemma parse_decl_failure:
  assumes "fst (parse_decl d st) = Inl e"
  shows "grows st (snd (parse_decl d st))"
proof (cases d)
  case (Decl name node bitsize)
  show ?thesis
  proof (cases node)
    case (FuncDecl args type)
    show ?thesis
    proof (cases name)
      case None
      then show ?thesis using Decl FuncDecl by simp
    next
      case (Some n)
      then show ?thesis
        using Decl FuncDecl assms
              get_type_then_declare_failure [where st = st and typenode = node and k = "''function '' @ n"]
        by simp
    qed
  next
    case (Struct nid sname decls)
    have "grows st (snd (get_struct_or_union_type ''struct'' nid sname decls None st))"
      by (rule resolver_grows)
    then show ?thesis
      using Decl Struct assms
      by (auto simp: then_declare_variable_failure declare_variable_failure split: if_splits)
  next
    case (Union nid sname decls)
    have "grows st (snd (get_struct_or_union_type ''union'' nid sname decls None st))"
      by (rule resolver_grows)
    then show ?thesis
      using Decl Union assms
      by (auto simp: then_declare_variable_failure declare_variable_failure split: if_splits)
  next
    case (Enum ename "values")
    have "grows st (snd (get_enum_type ename values st))"
      by (rule grows_get_enum_type)
    then show ?thesis
      using Decl Enum assms
      by (auto simp: then_declare_variable_failure declare_variable_failure split: if_splits)
  qed (use Decl assms in \<open>auto simp: declare_variable_failure split: if_splits\<close>)
qed

lemma parse_ext_failure:
  assumes "fst (parse_ext d st) = Inl e"
  shows "grows st (snd (parse_ext d st))"
proof (cases d)
  case (ExtDecl x)
  then show ?thesis using assms by (simp add: parse_decl_failure)
next
  case (Typedef name type)
  then show ?thesis
    using assms get_type_then_declare_failure [where st = st and typenode = type]
    by (auto split: if_splits)
next
  case OtherExt
  then show ?thesis by simp
qed

lemma tag_key_not_typedef:
  assumes "tag_key k"
  shows "take 8 k \<noteq> ''typedef ''"
proof (cases k)
  case Nil
  then show ?thesis by simp
next
  case (Cons c cs)
  then show ?thesis using assms by (auto simp: tag_key_def)
qed

section \<open>Declaring a name that is present\<close>

lemma parse_ext_Typedef:
  "truthy name \<Longrightarrow>
     parse_ext (Typedef name type) st = resolve_and_declare (''typedef '' @ the name) type st"
  by (simp add: resolve_and_declare_def split: prod.splits sum.splits)

lemma parse_decl_FuncDecl:
  "parse_decl (Decl (Some n) (FuncDecl args type) bitsize) st
     = resolve_and_declare (''function '' @ n) (FuncDecl args type) st"
  by (simp add: resolve_and_declare_def split: prod.splits sum.splits)

lemma declare_variable_truthy:
  "truthy name \<Longrightarrow>
     declare_variable name node st = resolve_and_declare (''variable '' @ the name) node st"
  by (simp add: declare_variable_def resolve_and_declare_def split: prod.splits sum.splits)

lemma resolve_and_declare_present:
  assumes "declarations st k = Some t0"
  shows "fst (resolve_and_declare k node st) \<noteq> Inr () \<and>
         (fst (get_type node False False st) = Inr t \<longrightarrow>
          fst (resolve_and_declare k node st) = Inl (FFIError (''multiple declarations of '' @ k)))"
proof (cases "get_type node False False st")
  case (Pair r st1)
  then have "declarations st \<subseteq>\<^sub>m declarations st1"
    using get_type_keeps [of st node False False] by simp
  then have "k \<in> dom (declarations st1)"
    using assms by (auto simp: map_le_def dom_def)
  then show ?thesis
    using Pair by (cases r) (simp_all add: resolve_and_declare_def declare_entry_def)
qed

lemma then_declare_variable_present:
  assumes "truthy name" and "declarations st (''variable '' @ the name) = Some t0"
      and "declarations st \<subseteq>\<^sub>m declarations (snd r)"
  shows "fst (case r of (Inl err, st1) \<Rightarrow> (Inl err, st1)
                      | (Inr t, st1) \<Rightarrow> declare_variable name node st1) \<noteq> Inr ()"
proof (cases r)
  case (Pair x st1)
  then have "declarations st1 (''variable '' @ the name) = Some t0"
    using assms(2,3) by (auto simp: map_le_def dom_def)
  then have "fst (declare_variable name node st1) \<noteq> Inr ()"
    using resolve_and_declare_present [of st1 "''variable '' @ the name" t0 node]
    by (simp add: declare_variable_truthy [OF assms(1)])
  then show ?thesis
    using Pair by (cases x) simp_all
qed

lemma parse_ext_present:
  assumes "declared d = Some (q, node)" and "declarations st q = Some t0"
  shows "fst (parse_ext d st) \<noteq> Inr () \<and>
         declarations (snd (parse_ext d st)) q = Some t0 \<and>
         (\<not> is_tag_node node \<and> fst (get_type node False False st) = Inr t \<longrightarrow>
            fst (parse_ext d st) = Inl (FFIError (''multiple declarations of '' @ q)))"
proof -
  have kept: "declarations (snd (parse_ext d st)) q = Some t0"
    using parse_ext_keeps [of st d] assms(2) by (auto simp: map_le_def dom_def)
  note rd = resolve_and_declare_present [OF assms(2), of node t]
  have "fst (parse_ext d st) \<noteq> Inr () \<and>
         (\<not> is_tag_node node \<and> fst (get_type node False False st) = Inr t \<longrightarrow>
            fst (parse_ext d st) = Inl (FFIError (''multiple declarations of '' @ q)))"
  proof (cases d)
    case (Typedef name type)
    then have t: "truthy name" and q: "q = ''typedef '' @ the name" and n: "node = type"
      using assms(1) by (auto split: if_splits)
    have "parse_ext d st = resolve_and_declare q node st"
      unfolding Typedef q n by (rule parse_ext_Typedef [OF t])
    then show ?thesis using rd by simp
  next
    case OtherExt
    then show ?thesis using assms by simp
  next
    case (ExtDecl dd)
    obtain name nd bitsize where dd: "dd = Decl name nd bitsize" by (cases dd)
    show ?thesis
    proof (cases "\<exists>args type. nd = FuncDecl args type")
      case True
      then obtain args type where f: "nd = FuncDecl args type" by blast
      then obtain n where nm: "name = Some n" and q: "q = ''function '' @ n" and n: "node = nd"
        using assms(1) ExtDecl dd by (auto split: option.splits)
      have "parse_ext d st = resolve_and_declare q node st"
        unfolding ExtDecl dd nm q n f parse_ext.simps by (rule parse_decl_FuncDecl)
      then show ?thesis using rd by simp
    next
      case False
      then have dv: "declared d = (if truthy name then Some (''variable '' @ the name, nd) else None)"
        using ExtDecl dd by (cases nd) simp_all
      then have t: "truthy name" and q: "q = ''variable '' @ the name" and n: "node = nd"
        using assms(1) by (auto split: if_splits)
      have v: "declarations st (''variable '' @ the name) = Some t0"
        using assms(2) q by simp
      have dvq: "declare_variable name node st' = resolve_and_declare q node st'" for st'
        unfolding q by (rule declare_variable_truthy [OF t])
      show ?thesis
      proof (cases "is_tag_node node")
        case False
        then have "parse_ext d st = declare_variable name node st"
          using ExtDecl dd n t \<open>\<not> (\<exists>args type. nd = FuncDecl args type)\<close> by (cases nd) simp_all
        then show ?thesis using rd dvq by simp
      next
        case True
        have "fst (parse_ext d st) \<noteq> Inr ()"
        proof (cases nd)
          case (Struct nid sname decls)
          have "declarations st \<subseteq>\<^sub>m
                  declarations (snd (get_struct_or_union_type ''struct'' nid sname decls None st))"
            by (rule grows_keeps) (rule resolver_grows)
          from then_declare_variable_present [OF t v this, of nd]
          have a: "fst (case get_struct_or_union_type ''struct'' nid sname decls None st of
                          (Inl err, st1) \<Rightarrow> (Inl err, st1)
                        | (Inr t, st1) \<Rightarrow> declare_variable name nd st1) \<noteq> Inr ()" .
          have b: "fst (declare_variable name nd st) \<noteq> Inr ()"
            using rd dvq n by simp
          show ?thesis
            unfolding ExtDecl dd Struct parse_ext.simps parse_decl.simps typenode.case
            using a b unfolding Struct by (cases "decls \<noteq> None") simp_all
        next
          case (Union nid sname decls)
          have "declarations st \<subseteq>\<^sub>m
                  declarations (snd (get_struct_or_union_type ''union'' nid sname decls None st))"
            by (rule grows_keeps) (rule resolver_grows)
          from then_declare_variable_present [OF t v this, of nd]
          have a: "fst (case get_struct_or_union_type ''union'' nid sname decls None st of
                          (Inl err, st1) \<Rightarrow> (Inl err, st1)
                        | (Inr t, st1) \<Rightarrow> declare_variable name nd st1) \<noteq> Inr ()" .
          have b: "fst (declare_variable name nd st) \<noteq> Inr ()"
            using rd dvq n by simp
          show ?thesis
            unfolding ExtDecl dd Union parse_ext.simps parse_decl.simps typenode.case
            using a b unfolding Union by (cases "decls \<noteq> None") simp_all
        next
          case (Enum ename "values")
          have "declarations st \<subseteq>\<^sub>m declarations (snd (get_enum_type ename values st))"
            by (rule grows_keeps) (rule grows_get_enum_type)
          from then_declare_variable_present [OF t v this, of nd]
          have a: "fst (case get_enum_type ename values st of
                          (Inl err, st1) \<Rightarrow> (Inl err, st1)
                        | (Inr t, st1) \<Rightarrow> declare_variable name nd st1) \<noteq> Inr ()" .
          have b: "fst (declare_variable name nd st) \<noteq> Inr ()"
            using rd dvq n by simp
          show ?thesis
            unfolding ExtDecl dd Enum parse_ext.simps parse_decl.simps typenode.case
            using a b unfolding Enum by (cases "values \<noteq> None") simp_all
        qed (use True n in simp_all)
        then show ?thesis using True by simp
      qed
    qed
  qed
  then show ?thesis using kept by simp
qed

lemma get_enum_type_present:
  "declarations st (''enum '' @ py_str ename) = Some t0 \<Longrightarrow>
     get_enum_type ename values st = (Inr t0, st)"
  by (simp add: get_enum_type_def)

section \<open>Array lengths, bit sizes and the fields of a struct\<close>









lemma structnode2type_set_fields [simp]:
  "structnode2type (set_fields tp ns ts bs st) = structnode2type st"
  by (cases tp) (simp_all add: set_fields_def)



section \<open>Evaluating the parser on an example\<close>

lemmas eval_defs = Parser_init_def ArrayType_item_def typedef_lookup_def primitive_ident_def parse_def
  struct_skeleton_def create_aggregate_def new_obj_def declare_entry_def map_result_def
  get_fldnames_def set_fields_def set_obj_fields_def declare_variable_def truthy_def
  is_dotdotdot_def get_type_pointer_def get_enum_type_def py_str_def py_int_def digit_val_def
  function_params_def parse_function_type.simps get_struct_or_union_type.simps
  dummy_param_type_def parse_type_def Let_def

section \<open>The claims\<close>

subsection \<open>C8: the primitive type \<^verbatim>\<open>signed\<close>\<close>

text \<open>
  C8 says that the identifier list with the single token \<^verbatim>\<open>signed\<close> resolves to the
  primitive type named \<^verbatim>\<open>signed int\<close>. The resolver appends \<^verbatim>\<open>int\<close> and then drops the
  leading \<^verbatim>\<open>signed\<close>: on a new parser the result is not \<^verbatim>\<open>signed int\<close>.
\<close>

theorem signed_alone_not_signed_int:
  "fst (get_type (TypeDecl None (IdentifierType [''signed''])) False False Parser_init)
     \<noteq> Inr (PrimitiveType ''signed int'')"
  by (simp add: eval_defs)

text \<open>
  C8 as amended: when \<^verbatim>\<open>signed\<close> is not the name of a typedef and no pointer is forced,
  the identifier list with the single token \<^verbatim>\<open>signed\<close> resolves to the primitive type
  named \<^verbatim>\<open>int\<close>, and the parser is left as it was.
\<close>

theorem signed_alone_is_int:
  assumes "declarations st ''typedef signed'' = None"
  shows "get_type (TypeDecl declname (IdentifierType [''signed''])) convert_array_to_pointer False st
           = (Inr (PrimitiveType ''int''), st)"
  using assms by (simp add: typedef_lookup_def primitive_ident_def)

theorem signed_alone_is_int_witness:
  "declarations Parser_init ''typedef signed'' = None \<and>
   get_type (TypeDecl None (IdentifierType [''signed''])) False False Parser_init
     = (Inr (PrimitiveType ''int''), Parser_init)"
  using signed_alone_is_int [of Parser_init None False] by (simp add: Parser_init_def)

subsection \<open>C1: a call of \<^verbatim>\<open>parse\<close> that raises\<close>

text \<open>
  C1 says that after a call of \<^verbatim>\<open>parse\<close> that raises, the declarations have the keys they
  had before the call. For \<^verbatim>\<open>int x; int y[n];\<close> on a new parser the call raises at the second
  declaration, and \<^verbatim>\<open>variable x\<close>, which was not a key before, is one afterwards.
\<close>

theorem failed_parse_leaves_new_name:
  "fst (parse failing_fragment Parser_init)
     = Inl (FFIError ''unsupported non-constant or not immediately constant expression'') \<and>
   declarations Parser_init ''variable x'' = None \<and>
   declarations (snd (parse failing_fragment Parser_init)) ''variable x''
     = Some (PrimitiveType ''int'')"
  by (simp add: failing_fragment_def sentinel_typedef_def eval_defs)

text \<open>
  C1 as amended: when \<^verbatim>\<open>parse\<close> raises at a declaration of the fragment, the call raises that
  error and leaves the parser as it was at the raise, with no rollback. The declarations
  then hold the entries they had before the call and the entries that the declarations
  of the fragment before the failing one have registered, with the same types. Beyond
  these, the failing declaration itself adds keys of struct, union and enum tags only:
  no typedef, function or variable name of the failing declaration becomes visible.
\<close>

theorem failed_parse_adds_earlier_names_and_tags:
  assumes "skip_to_separator ext = Inr (ds1 @ d # ds2)"
      and "fst (parse_loop ds1 st) = Inr ()"
      and "fst (parse_ext d (snd (parse_loop ds1 st))) = Inl err"
  shows "parse ext st = (Inl err, snd (parse_ext d (snd (parse_loop ds1 st)))) \<and>
         declarations st \<subseteq>\<^sub>m declarations (snd (parse_loop ds1 st)) \<and>
         declarations (snd (parse_loop ds1 st)) \<subseteq>\<^sub>m declarations (snd (parse ext st)) \<and>
         (\<forall>k t. declarations (snd (parse ext st)) k = Some t \<longrightarrow>
                 declarations (snd (parse_loop ds1 st)) k = None \<longrightarrow>
                 tag_key k \<and> take 8 k \<noteq> ''typedef '' \<and> take 9 k \<noteq> ''function ''
                   \<and> take 9 k \<noteq> ''variable '')"
proof -
  obtain st1 where l1: "parse_loop ds1 st = (Inr (), st1)"
    using assms(2) by (cases "parse_loop ds1 st") auto
  obtain st2 where l2: "parse_ext d st1 = (Inl err, st2)"
    using assms(3) l1 by (cases "parse_ext d st1") auto
  have p: "parse ext st = (Inl err, st2)"
    using assms(1) l1 l2 by (simp add: parse_def parse_loop_append)
  have k2: "declarations st1 \<subseteq>\<^sub>m declarations st2"
    using parse_ext_keeps [of st1 d] l2 by simp
  have "grows st1 st2"
    using parse_ext_failure [of d st1 err] l2 by simp
  then have u: "tag_key k" if "declarations st2 k = Some t" "declarations st1 k = None" for k t
    using that by (auto simp: grows_def)
  have "tag_key k \<and> take 8 k \<noteq> ''typedef '' \<and> take 9 k \<noteq> ''function '' \<and> take 9 k \<noteq> ''variable ''"
    if "declarations st2 k = Some t" "declarations st1 k = None" for k t
    using u [OF that] tag_key_not_typedef tag_key_not_variable_or_function by blast
  then show ?thesis
    using p l1 l2 k2 parse_loop_keeps [of st ds1] by simp
qed

text \<open>
  The amended C1 at \<^verbatim>\<open>int x; int y[n];\<close> on a new parser: \<^verbatim>\<open>variable x\<close> is registered,
  \<^verbatim>\<open>variable y\<close> is not.
\<close>

theorem failed_parse_adds_earlier_names_and_tags_witness:
  "skip_to_separator failing_fragment
     = Inr ([ExtDecl (Decl (Some ''x'') (TypeDecl (Some ''x'') (IdentifierType [''int''])) None)]
            @ ExtDecl (Decl (Some ''y'')
                (ArrayDecl (TypeDecl (Some ''y'') (IdentifierType [''int''])) (Some OtherExpr)) None)
            # []) \<and>
   fst (parse failing_fragment Parser_init)
     = Inl (FFIError ''unsupported non-constant or not immediately constant expression'') \<and>
   declarations (snd (parse failing_fragment Parser_init)) ''variable x'' = Some (PrimitiveType ''int'') \<and>
   declarations (snd (parse failing_fragment Parser_init)) ''variable y'' = None"
proof -
  let ?d1 = "ExtDecl (Decl (Some ''x'') (TypeDecl (Some ''x'') (IdentifierType [''int''])) None)"
  let ?d2 = "ExtDecl (Decl (Some ''y'')
                (ArrayDecl (TypeDecl (Some ''y'') (IdentifierType [''int''])) (Some OtherExpr)) None)"
  let ?err = "FFIError ''unsupported non-constant or not immediately constant expression''"
  have h1: "skip_to_separator failing_fragment = Inr ([?d1] @ ?d2 # [])"
    by (simp add: failing_fragment_def sentinel_typedef_def)
  have h2: "fst (parse_loop [?d1] Parser_init) = Inr ()"
    by (simp add: eval_defs)
  have h3: "fst (parse_ext ?d2 (snd (parse_loop [?d1] Parser_init))) = Inl ?err"
    by (simp add: eval_defs)
  have s: "declarations (snd (parse_loop [?d1] Parser_init)) ''variable x'' = Some (PrimitiveType ''int'')"
    by (simp add: eval_defs)
  have n: "declarations (snd (parse_loop [?d1] Parser_init)) ''variable y'' = None"
    by (simp add: eval_defs)
  note r = failed_parse_adds_earlier_names_and_tags [OF h1 h2 h3]
  have p: "fst (parse failing_fragment Parser_init) = Inl ?err"
    by (simp only: r [THEN conjunct1] fst_conv)
  have k: "declarations (snd (parse_loop [?d1] Parser_init))
              \<subseteq>\<^sub>m declarations (snd (parse failing_fragment Parser_init))"
    by (rule r [THEN conjunct2, THEN conjunct2, THEN conjunct1])
  have x: "declarations (snd (parse failing_fragment Parser_init)) ''variable x'' = Some (PrimitiveType ''int'')"
    using k s by (auto simp: map_le_def dom_def)
  have "\<not> tag_key ''variable y''" by (simp add: tag_key_def)
  then have y: "declarations (snd (parse failing_fragment Parser_init)) ''variable y'' = None"
    using r [THEN conjunct2, THEN conjunct2, THEN conjunct2] n
    by (cases "declarations (snd (parse failing_fragment Parser_init)) ''variable y''") blast+
  show ?thesis using h1 p x y by simp
qed

subsection \<open>C2: a typedef of an array type as a parameter\<close>

text \<open>
  C2: when the single identifier of a bare named type is a registered typedef of an array
  type, resolving it with \<^verbatim>\<open>convert_array_to_pointer\<close> returns a pointer to the element
  type of the array, and leaves the parser as it is. The branch returns \<^verbatim>\<open>type.item\<close>; what
  this attribute of \<^verbatim>\<open>model.ArrayType\<close> holds is taken from the specification.
\<close>

theorem typedef_array_decays_to_pointer:
  assumes "declarations st (''typedef '' @ n) = Some (ArrayType element len)"
  shows "get_type (TypeDecl declname (IdentifierType [n])) True force_pointer st
           = (Inr (PointerType element), st)"
  using assms by (simp add: typedef_lookup_def ArrayType_item_def)

text \<open>
  C2 for the parameter of \<^verbatim>\<open>f\<close> after \<^verbatim>\<open>typedef int arr_t[10]; void f(arr_t a);\<close>
\<close>

theorem typedef_array_decays_to_pointer_witness:
  "declarations (snd (parse typedef_array_fragment Parser_init)) (''typedef '' @ ''arr_t'')
     = Some (ArrayType (PrimitiveType ''int'') (Some 10)) \<and>
   get_type (TypeDecl (Some ''a'') (IdentifierType [''arr_t''])) True False
       (snd (parse typedef_array_fragment Parser_init))
     = (Inr (PointerType (PrimitiveType ''int'')), snd (parse typedef_array_fragment Parser_init)) \<and>
   declarations (snd (parse typedef_array_fragment Parser_init)) ''function f''
     = Some (FunctionType [PointerType (PrimitiveType ''int'')] VoidType False)"
proof -
  have h: "declarations (snd (parse typedef_array_fragment Parser_init)) (''typedef '' @ ''arr_t'')
             = Some (ArrayType (PrimitiveType ''int'') (Some 10))"
    by (simp add: typedef_array_fragment_def sentinel_typedef_def eval_defs)
  have f: "declarations (snd (parse typedef_array_fragment Parser_init)) ''function f''
             = Some (FunctionType [PointerType (PrimitiveType ''int'')] VoidType False)"
    by (simp add: typedef_array_fragment_def sentinel_typedef_def eval_defs)
  show ?thesis
    using typedef_array_decays_to_pointer [OF h, of "Some ''a''" False] h f by simp
qed

subsection \<open>C6: the sentinel in a field list\<close>

text \<open>
  C6 says that a field whose type is the sentinel identifier is handled as a special
  case and that a failure is one of the errors of the interface. For
  \<^verbatim>\<open>struct foo { int a; ...; };\<close> the loop over the fields recognises the entry and then
  evaluates the undefined name \<^verbatim>\<open>xxxx\<close>: the call raises \<^verbatim>\<open>NameError\<close>.
\<close>

theorem dotdotdot_field_raises_NameError:
  "fst (parse struct_with_dots_fragment Parser_init) = Inl (NameError ''xxxx'')"
  by (simp add: struct_with_dots_fragment_def sentinel_typedef_def eval_defs)

subsection \<open>C7: enums without a tag\<close>

text \<open>
  C7 says that an enum without a tag is never registered. After
  \<^verbatim>\<open>enum { A, B } x; enum { C, D } y;\<close> the first enum is registered under the key
  \<^verbatim>\<open>enum None\<close>, and the second declaration finds that key: \<^verbatim>\<open>y\<close> gets the type of \<^verbatim>\<open>x\<close>,
  with the enumerators \<^verbatim>\<open>A\<close> and \<^verbatim>\<open>B\<close>, and no second enum object is made.
\<close>

theorem anonymous_enum_registered_and_reused:
  "fst (parse two_anonymous_enums_fragment Parser_init) = Inr () \<and>
   declarations (snd (parse two_anonymous_enums_fragment Parser_init)) ''enum None'' = Some (ObjRef 0) \<and>
   declarations (snd (parse two_anonymous_enums_fragment Parser_init)) ''variable x'' = Some (ObjRef 0) \<and>
   declarations (snd (parse two_anonymous_enums_fragment Parser_init)) ''variable y'' = Some (ObjRef 0) \<and>
   heap (snd (parse two_anonymous_enums_fragment Parser_init)) = [EnumType None [''A'', ''B''] [0, 1]]"
  by (simp add: two_anonymous_enums_fragment_def sentinel_typedef_def eval_defs)

subsection \<open>C5: a second field list for the same tag\<close>

text \<open>
  C5: when the declarations hold a struct or union type for a tag and the fields of that
  type have been set, resolving another node of the same tag (one that is not in
  \<^verbatim>\<open>_structnode2type\<close>) that has a field list raises
  \<^verbatim>\<open>CDefError("duplicate declaration of struct ...")\<close>. The call only records the node in
  \<^verbatim>\<open>_structnode2type\<close>: the store of objects, and with it the field names, field types and
  bit sizes of the type, and the declarations are as before.
\<close>

theorem second_field_list_rejected:
  assumes "structnode2type st nid = None"
      and "declarations st (kind @ '' '' @ n) = Some tp"
      and "get_fldnames tp st = Inr (Some fn)"
  shows "get_struct_or_union_type kind nid (Some n) (Some ds) declname st
           = (Inl (CDefError (''duplicate declaration of struct '' @ n)),
              st\<lparr>structnode2type := (structnode2type st)(nid \<mapsto> tp)\<rparr>) \<and>
         heap (snd (get_struct_or_union_type kind nid (Some n) (Some ds) declname st)) = heap st \<and>
         declarations (snd (get_struct_or_union_type kind nid (Some n) (Some ds) declname st))
           = declarations st \<and>
         get_fldnames tp (snd (get_struct_or_union_type kind nid (Some n) (Some ds) declname st))
           = Inr (Some fn)"
  using assms
  by (simp add: get_struct_or_union_type.simps struct_skeleton_def py_str_def)

text \<open>C5 for a second \<^verbatim>\<open>struct Point { int x; }\<close> after \<^verbatim>\<open>struct Point { int x; };\<close>\<close>

theorem second_field_list_rejected_witness:
  "structnode2type (snd (parse point_fragment Parser_init)) 2 = None \<and>
   declarations (snd (parse point_fragment Parser_init)) ''struct Point'' = Some (ObjRef 0) \<and>
   get_fldnames (ObjRef 0) (snd (parse point_fragment Parser_init)) = Inr (Some [Some ''x'']) \<and>
   fst (get_struct_or_union_type ''struct'' 2 (Some ''Point'')
          (Some [Decl (Some ''x'') (TypeDecl (Some ''x'') (IdentifierType [''int''])) None]) None
          (snd (parse point_fragment Parser_init)))
     = Inl (CDefError ''duplicate declaration of struct Point'') \<and>
   heap (snd (get_struct_or_union_type ''struct'' 2 (Some ''Point'')
          (Some [Decl (Some ''x'') (TypeDecl (Some ''x'') (IdentifierType [''int''])) None]) None
          (snd (parse point_fragment Parser_init))))
     = [StructType ''Point'' (Some [Some ''x'']) (Some [PrimitiveType ''int'']) (Some [- 1])]"
proof -
  let ?st = "snd (parse point_fragment Parser_init)"
  have h1: "structnode2type ?st 2 = None"
    by (simp add: point_fragment_def sentinel_typedef_def eval_defs)
  have h2: "declarations ?st (''struct'' @ '' '' @ ''Point'') = Some (ObjRef 0)"
    by (simp add: point_fragment_def sentinel_typedef_def eval_defs)
  have h3: "get_fldnames (ObjRef 0) ?st = Inr (Some [Some ''x''])"
    by (simp add: point_fragment_def sentinel_typedef_def eval_defs)
  have hp: "heap ?st = [StructType ''Point'' (Some [Some ''x'']) (Some [PrimitiveType ''int'']) (Some [- 1])]"
    by (simp add: point_fragment_def sentinel_typedef_def eval_defs)
  note r = second_field_list_rejected [OF h1 h2 h3, of "[Decl (Some ''x'') (TypeDecl (Some ''x'') (IdentifierType [''int''])) None]" None]
  have a: "fst (get_struct_or_union_type ''struct'' 2 (Some ''Point'')
          (Some [Decl (Some ''x'') (TypeDecl (Some ''x'') (IdentifierType [''int''])) None]) None ?st)
     = Inl (CDefError ''duplicate declaration of struct Point'')"
    using r [THEN conjunct1] by simp
  have b: "heap (snd (get_struct_or_union_type ''struct'' 2 (Some ''Point'')
          (Some [Decl (Some ''x'') (TypeDecl (Some ''x'') (IdentifierType [''int''])) None]) None ?st))
     = heap ?st"
    by (rule r [THEN conjunct2, THEN conjunct1])
  show ?thesis using h1 h2 h3 a b hp by simp
qed

subsection \<open>C10: \<^verbatim>\<open>parse_type\<close> registers tags only\<close>

text \<open>
  C10: a key that a call of \<^verbatim>\<open>parse_type\<close> adds to the declarations, whether the call
  returns or raises, starts with \<^verbatim>\<open>struct \<close>, \<^verbatim>\<open>union \<close> or \<^verbatim>\<open>enum \<close>; it does not start with
  \<^verbatim>\<open>variable \<close> or \<^verbatim>\<open>function \<close>.
\<close>

theorem parse_type_adds_only_tag_names:
  assumes "declarations st k = None"
      and "declarations (snd (parse_type ext force_pointer st)) k = Some t"
  shows "tag_key k \<and> take 9 k \<noteq> ''variable '' \<and> take 9 k \<noteq> ''function ''"
proof -
  have "grows st (snd (parse_type ext force_pointer st))" by (rule parse_type_grows)
  then have "tag_key k" using assms by (auto simp: grows_def)
  then show ?thesis using tag_key_not_variable_or_function by simp
qed

text \<open>C10 at \<^verbatim>\<open>parse_type("struct foo *")\<close>, which does register the tag \<^verbatim>\<open>struct foo\<close>.\<close>

theorem parse_type_adds_only_tag_names_witness:
  "declarations Parser_init ''struct foo'' = None \<and>
   declarations (snd (parse_type struct_pointer_type_fragment False Parser_init)) ''struct foo''
     = Some (ObjRef 0) \<and>
   fst (parse_type struct_pointer_type_fragment False Parser_init) = Inr (PointerType (ObjRef 0)) \<and>
   tag_key ''struct foo''"
proof -
  have h1: "declarations Parser_init ''struct foo'' = None"
    by (simp add: Parser_init_def)
  have h2: "declarations (snd (parse_type struct_pointer_type_fragment False Parser_init)) ''struct foo''
              = Some (ObjRef 0)"
    by (simp add: struct_pointer_type_fragment_def sentinel_typedef_def eval_defs)
  have h3: "fst (parse_type struct_pointer_type_fragment False Parser_init) = Inr (PointerType (ObjRef 0))"
    by (simp add: struct_pointer_type_fragment_def sentinel_typedef_def eval_defs)
  show ?thesis
    using parse_type_adds_only_tag_names [OF h1 h2] h1 h2 h3 by simp
qed

subsection \<open>C4: a qualified name is inserted once\<close>

text \<open>
  C4 says that every attempt to insert a qualified name that is present raises, the
  insertions of the enum evaluator included. After \<^verbatim>\<open>enum foo { A };\<close> the declaration
  \<^verbatim>\<open>enum foo { B = 7 };\<close> does not raise: \<^verbatim>\<open>_get_enum_type\<close> finds the key \<^verbatim>\<open>enum foo\<close> and returns
  the type registered under it, and the call of \<^verbatim>\<open>parse\<close> returns.
\<close>

theorem enum_redefinition_accepted:
  "fst (parse enum_twice_fragment Parser_init) = Inr () \<and>
   declarations (snd (parse enum_twice_fragment Parser_init)) ''enum foo'' = Some (ObjRef 0) \<and>
   heap (snd (parse enum_twice_fragment Parser_init)) = [EnumType (Some ''foo'') [''A''] [0]]"
  by (simp add: enum_twice_fragment_def sentinel_typedef_def eval_defs)

text \<open>
  C4 as amended: over any sequence of calls of \<^verbatim>\<open>parse\<close> and \<^verbatim>\<open>parse_type\<close>, raising or not, no
  entry of the declarations is replaced or removed, so that a qualified name is inserted
  at most once. When a declaration of a fragment declares a typedef, function or
  variable name that is present when \<^verbatim>\<open>parse\<close> reaches it, the call of \<^verbatim>\<open>parse\<close> raises and the
  entry stays as it is; when the type of the declaration resolves (and is not a bare
  struct, union or enum node), the error is \<^verbatim>\<open>FFIError("multiple declarations of ...")\<close>
  from \<^verbatim>\<open>_declare\<close>. The enum evaluator does not raise on a key that is present: it returns
  the type registered under it and leaves the parser as it is.
\<close>

theorem declare_rejects_present_name:
  "declarations st \<subseteq>\<^sub>m declarations (run_calls calls st) \<and>
   (skip_to_separator ext = Inr (ds1 @ d # ds2) \<and> fst (parse_loop ds1 st) = Inr () \<and>
    declared d = Some (q, node) \<and> declarations (snd (parse_loop ds1 st)) q = Some t0 \<longrightarrow>
      fst (parse ext st) \<noteq> Inr () \<and>
      declarations (snd (parse ext st)) q = Some t0 \<and>
      (\<not> is_tag_node node \<and> fst (get_type node False False (snd (parse_loop ds1 st))) = Inr t \<longrightarrow>
         fst (parse ext st) = Inl (FFIError (''multiple declarations of '' @ q)))) \<and>
   (declarations st (''enum '' @ py_str ename) = Some t0 \<longrightarrow>
      get_enum_type ename values st = (Inr t0, st))"
proof -
  have "fst (parse ext st) \<noteq> Inr () \<and>
      declarations (snd (parse ext st)) q = Some t0 \<and>
      (\<not> is_tag_node node \<and> fst (get_type node False False (snd (parse_loop ds1 st))) = Inr t \<longrightarrow>
         fst (parse ext st) = Inl (FFIError (''multiple declarations of '' @ q)))"
    if a: "skip_to_separator ext = Inr (ds1 @ d # ds2)" "fst (parse_loop ds1 st) = Inr ()"
          "declared d = Some (q, node)" "declarations (snd (parse_loop ds1 st)) q = Some t0"
  proof -
    obtain st1 where l1: "parse_loop ds1 st = (Inr (), st1)"
      using a(2) by (cases "parse_loop ds1 st") auto
    note pe = parse_ext_present [OF a(3), of st1 t0 t]
    obtain e where e: "fst (parse_ext d st1) = Inl e"
      using pe a(4) l1 by (cases "fst (parse_ext d st1)") auto
    then obtain st2 where l2: "parse_ext d st1 = (Inl e, st2)"
      by (cases "parse_ext d st1") auto
    have p: "parse ext st = (Inl e, st2)"
      using a(1) l1 l2 by (simp add: parse_def parse_loop_append)
    show ?thesis using p pe a(4) l1 l2 by simp
  qed
  then show ?thesis
    using run_calls_keeps [of st calls] get_enum_type_present [of st ename t0 "values"] by blast
qed

text \<open>
  The amended C4 at \<^verbatim>\<open>int x; char x;\<close> on a new parser, and at a second
  \<^verbatim>\<open>enum foo { B = 7 }\<close> after \<^verbatim>\<open>enum foo { A }; enum foo { B = 7 };\<close>
\<close>

theorem declare_rejects_present_name_witness:
  "skip_to_separator duplicate_variable_fragment
     = Inr ([ExtDecl (Decl (Some ''x'') (TypeDecl (Some ''x'') (IdentifierType [''int''])) None)]
            @ ExtDecl (Decl (Some ''x'') (TypeDecl (Some ''x'') (IdentifierType [''char''])) None)
            # []) \<and>
   fst (parse duplicate_variable_fragment Parser_init)
     = Inl (FFIError ''multiple declarations of variable x'') \<and>
   declarations (snd (parse duplicate_variable_fragment Parser_init)) ''variable x''
     = Some (PrimitiveType ''int'') \<and>
   declarations (snd (parse enum_twice_fragment Parser_init)) (''enum '' @ py_str (Some ''foo''))
     = Some (ObjRef 0) \<and>
   get_enum_type (Some ''foo'') (Some [Enumerator ''B'' (Some (Constant ''7''))])
       (snd (parse enum_twice_fragment Parser_init))
     = (Inr (ObjRef 0), snd (parse enum_twice_fragment Parser_init))"
proof -
  let ?d1 = "ExtDecl (Decl (Some ''x'') (TypeDecl (Some ''x'') (IdentifierType [''int''])) None)"
  let ?node = "TypeDecl (Some ''x'') (IdentifierType [''char''])"
  let ?d2 = "ExtDecl (Decl (Some ''x'') ?node None)"
  have h1: "skip_to_separator duplicate_variable_fragment = Inr ([?d1] @ ?d2 # [])"
    by (simp add: duplicate_variable_fragment_def sentinel_typedef_def)
  have h2: "fst (parse_loop [?d1] Parser_init) = Inr ()"
    by (simp add: eval_defs)
  have h3: "declared ?d2 = Some (''variable x'', ?node)"
    by (simp add: truthy_def)
  have h4: "declarations (snd (parse_loop [?d1] Parser_init)) ''variable x'' = Some (PrimitiveType ''int'')"
    by (simp add: eval_defs)
  have h5: "\<not> is_tag_node ?node \<and>
            fst (get_type ?node False False (snd (parse_loop [?d1] Parser_init))) = Inr (PrimitiveType ''char'')"
    by (simp add: eval_defs)
  note r = declare_rejects_present_name [of Parser_init "[]" duplicate_variable_fragment "[?d1]" ?d2 "[]"
             "''variable x''" ?node "PrimitiveType ''int''" "PrimitiveType ''char''" None None,
             THEN conjunct2, THEN conjunct1, rule_format, OF conjI [OF h1 conjI [OF h2 conjI [OF h3 h4]]]]
  have a: "fst (parse duplicate_variable_fragment Parser_init)
             = Inl (FFIError (''multiple declarations of '' @ ''variable x''))"
    by (rule r [THEN conjunct2, THEN conjunct2, rule_format, OF h5])
  have b: "declarations (snd (parse duplicate_variable_fragment Parser_init)) ''variable x''
             = Some (PrimitiveType ''int'')"
    by (rule r [THEN conjunct2, THEN conjunct1])
  have h6: "declarations (snd (parse enum_twice_fragment Parser_init)) (''enum '' @ py_str (Some ''foo''))
              = Some (ObjRef 0)"
    by (simp add: enum_twice_fragment_def sentinel_typedef_def eval_defs)
  have c: "get_enum_type (Some ''foo'') (Some [Enumerator ''B'' (Some (Constant ''7''))])
             (snd (parse enum_twice_fragment Parser_init))
           = (Inr (ObjRef 0), snd (parse enum_twice_fragment Parser_init))"
    by (rule declare_rejects_present_name
          [where st = "snd (parse enum_twice_fragment Parser_init)" and ename = "Some ''foo''"
             and ?t0.0 = "ObjRef 0" and calls = "[]" and ext = "[]" and ?ds1.0 = "[]"
             and d = OtherExt and ?ds2.0 = "[]" and q = "[]" and node = "IdentifierType []"
             and t = VoidType,
           THEN conjunct2, THEN conjunct2, rule_format, OF h6])
  show ?thesis using h1 a b h6 c by simp
qed

subsection \<open>C3: the skeleton of a struct is cached before its fields\<close>



subsection \<open>C9: array lengths and bit sizes\<close>




end
